theory Spec2Isabelle
  imports Complex_Main
begin

section \<open>JavaScript values\<close>

text \<open>
  A JavaScript number is NaN, one of the two infinities, or a finite value. A finite
  double is represented by the real it denotes: rounding, overflow and the sign of
  zero are not part of the model. The theorems below state sums in the order in
  which the code accumulates them, and evaluate arithmetic only on small integers.
\<close>

datatype jsnum = NaN | PosInf | NegInf | Num real

text \<open>The values a field of a record loaded from JSON holds, or \<open>Undefined\<close> when it is missing.\<close>

datatype jsval = Undefined | Null | Number jsnum | String string

text \<open>
  An optional numeric parameter: \<open>None\<close> is the argument left out (\<open>undefined\<close>),
  \<open>Some n\<close> the number passed.
\<close>

type_synonym arg = "jsnum option"

fun ToNumber :: "arg \<Rightarrow> jsnum" where
  "ToNumber None = NaN"
| "ToNumber (Some n) = n"

text \<open>\<open>!x\<close> is true exactly when \<open>x\<close> is not truthy: \<open>undefined\<close>, \<open>NaN\<close> and \<open>0\<close> are falsy.\<close>

fun truthy :: "arg \<Rightarrow> bool" where
  "truthy None = False"
| "truthy (Some NaN) = False"
| "truthy (Some (Num r)) = (r \<noteq> 0)"
| "truthy (Some _) = True"

fun js_add :: "jsnum \<Rightarrow> jsnum \<Rightarrow> jsnum" where
  "js_add (Num a) (Num b) = Num (a + b)"
| "js_add NaN _ = NaN"
| "js_add _ NaN = NaN"
| "js_add PosInf NegInf = NaN"
| "js_add NegInf PosInf = NaN"
| "js_add PosInf _ = PosInf"
| "js_add _ PosInf = PosInf"
| "js_add NegInf _ = NegInf"
| "js_add _ NegInf = NegInf"

fun js_neg :: "jsnum \<Rightarrow> jsnum" where
  "js_neg NaN = NaN"
| "js_neg PosInf = NegInf"
| "js_neg NegInf = PosInf"
| "js_neg (Num a) = Num (- a)"

definition js_sub :: "jsnum \<Rightarrow> jsnum \<Rightarrow> jsnum" where
  "js_sub a b = js_add a (js_neg b)"

text \<open>\<open>a / b\<close>; a zero divisor is taken as \<open>+0\<close>.\<close>

fun js_div :: "jsnum \<Rightarrow> jsnum \<Rightarrow> jsnum" where
  "js_div NaN _ = NaN"
| "js_div _ NaN = NaN"
| "js_div (Num a) (Num b) =
     (if b \<noteq> 0 then Num (a / b)
      else if a = 0 then NaN else if 0 < a then PosInf else NegInf)"
| "js_div (Num a) _ = Num 0"
| "js_div PosInf (Num b) = (if 0 \<le> b then PosInf else NegInf)"
| "js_div NegInf (Num b) = (if 0 \<le> b then NegInf else PosInf)"
| "js_div _ _ = NaN"

text \<open>The relational operators on numbers: every comparison with NaN is false.\<close>

fun js_lt :: "jsnum \<Rightarrow> jsnum \<Rightarrow> bool" where
  "js_lt NaN _ = False"
| "js_lt _ NaN = False"
| "js_lt (Num a) (Num b) = (a < b)"
| "js_lt _ NegInf = False"
| "js_lt NegInf _ = True"
| "js_lt PosInf _ = False"
| "js_lt _ PosInf = True"

definition js_gt :: "jsnum \<Rightarrow> jsnum \<Rightarrow> bool" where
  "js_gt a b = js_lt b a"

definition js_le :: "jsnum \<Rightarrow> jsnum \<Rightarrow> bool" where
  "js_le a b = (a \<noteq> NaN \<and> b \<noteq> NaN \<and> \<not> js_lt b a)"

definition js_ge :: "jsnum \<Rightarrow> jsnum \<Rightarrow> bool" where
  "js_ge a b = js_le b a"

text \<open>\<open>a === b\<close> on two numbers, and on a number and an optional parameter.\<close>

definition num_eq :: "jsnum \<Rightarrow> jsnum \<Rightarrow> bool" where
  "num_eq a b = (a \<noteq> NaN \<and> a = b)"

fun strict_eq :: "jsnum \<Rightarrow> arg \<Rightarrow> bool" where
  "strict_eq a None = False"
| "strict_eq a (Some b) = num_eq a b"

section \<open>Dates\<close>

text \<open>
  A \<open>Date\<close> object: invalid, or a time value in milliseconds together with the
  local-time fields that \<open>getFullYear\<close>, \<open>getMonth\<close> (0 to 11) and \<open>getDate\<close> read.
\<close>

datatype jsdate = InvalidDate | DateObj int int nat nat

fun valueOf :: "jsdate \<Rightarrow> jsnum" where
  "valueOf InvalidDate = NaN"
| "valueOf (DateObj tv y m d) = Num (real_of_int tv)"

fun getFullYear :: "jsdate \<Rightarrow> jsnum" where
  "getFullYear InvalidDate = NaN"
| "getFullYear (DateObj tv y m d) = Num (real_of_int y)"

fun getMonth :: "jsdate \<Rightarrow> jsnum" where
  "getMonth InvalidDate = NaN"
| "getMonth (DateObj tv y m d) = Num (real m)"

fun getDate :: "jsdate \<Rightarrow> jsnum" where
  "getDate InvalidDate = NaN"
| "getDate (DateObj tv y m d) = Num (real d)"

section \<open>The host\<close>

text \<open>
  \<open>parseFloat\<close> and the \<open>Date\<close> constructor applied to one value belong to the
  JavaScript host, not to the program: the program is modelled over any host.
\<close>

record host =
  parseFloat :: "jsval \<Rightarrow> jsnum"
  newDate :: "jsval \<Rightarrow> jsdate"

section \<open>Transactions and the analyzer\<close>

record transaction =
  transaction_id :: jsval
  transaction_date :: jsval
  transaction_amount :: jsval
  transaction_type :: jsval
  transaction_description :: jsval
  merchant_name :: jsval

record TransactionAnalyzer =
  transactions :: "transaction list"

text \<open>\<open>addTransaction\<close> pushes onto the array of the instance; the updated instance is returned.\<close>

definition addTransaction :: "transaction \<Rightarrow> TransactionAnalyzer \<Rightarrow> TransactionAnalyzer" where
  "addTransaction newTransaction this =
     this\<lparr>transactions := transactions this @ [newTransaction]\<rparr>"

definition getAllTransactions :: "TransactionAnalyzer \<Rightarrow> transaction list" where
  "getAllTransactions this = transactions this"

text \<open>
  A \<open>Set\<close> keeps its members in insertion order; \<open>add\<close> leaves the set as it is
  when the value is already a member.
\<close>

definition Set_add :: "'a \<Rightarrow> 'a list \<Rightarrow> 'a list" where
  "Set_add x s = (if x \<in> set s then s else s @ [x])"

definition getUniqueTransactionType :: "TransactionAnalyzer \<Rightarrow> jsval list" where
  "getUniqueTransactionType this =
     foldl (\<lambda>uniqueTypes t. Set_add (transaction_type t) uniqueTypes) [] (transactions this)"

text \<open>
  \<open>calculateTotalAmount\<close> reads the array of the global \<open>analyzer\<close>, the instance the
  script creates from the file, not the array of \<open>this\<close>.
\<close>

definition calculateTotalAmount ::
  "host \<Rightarrow> TransactionAnalyzer \<Rightarrow> TransactionAnalyzer \<Rightarrow> jsnum" where
  "calculateTotalAmount h analyzer this =
     foldl (\<lambda>totalForAllTime t. js_add totalForAllTime (parseFloat h (transaction_amount t)))
       (Num 0) (transactions analyzer)"

text \<open>What \<open>console.error\<close> is called with: the message that the date is wrong.\<close>

datatype console_message = WrongDateMessage

text \<open>
  The arrow function \<open>isSameDate\<close> closes over \<open>year\<close>, \<open>month\<close> and \<open>day\<close>. Its second
  parameter, the date built from the three, is never read and is left out.
\<close>

definition isSameDate :: "arg \<Rightarrow> arg \<Rightarrow> arg \<Rightarrow> jsdate \<Rightarrow> bool" where
  "isSameDate year month day transactionDate =
     ((\<not> truthy year \<or> strict_eq (getFullYear transactionDate) year) \<and>
      (\<not> truthy month \<or> num_eq (getMonth transactionDate) (js_sub (ToNumber month) (Num 1))) \<and>
      (\<not> truthy day \<or> strict_eq (getDate transactionDate) day))"

text \<open>The result is what was written to the console and the number returned.\<close>

definition calculateTotalAmountByDate ::
  "host \<Rightarrow> TransactionAnalyzer \<Rightarrow> arg \<Rightarrow> arg \<Rightarrow> arg \<Rightarrow> console_message list \<times> jsnum" where
  "calculateTotalAmountByDate h this year month day =
     (if js_lt (ToNumber month) (Num 1) \<or> js_gt (ToNumber month) (Num 12) \<or>
         js_lt (ToNumber day) (Num 1) \<or> js_gt (ToNumber day) (Num 31)
      then ([WrongDateMessage], Num 0)
      else ([], foldl (\<lambda>totalAmount t.
                  if isSameDate year month day (newDate h (transaction_date t))
                  then js_add totalAmount (parseFloat h (transaction_amount t))
                  else totalAmount)
                (Num 0) (transactions this)))"

definition getTransactionsInDateRange ::
  "host \<Rightarrow> TransactionAnalyzer \<Rightarrow> jsval \<Rightarrow> jsval \<Rightarrow> transaction list" where
  "getTransactionsInDateRange h this startDate endDate =
     (let start = newDate h startDate; end = newDate h endDate
      in filter (\<lambda>t. let transactionDate = newDate h (transaction_date t)
                     in js_ge (valueOf transactionDate) (valueOf start) \<and>
                        js_le (valueOf transactionDate) (valueOf end))
           (transactions this))"

definition calculateAverageTransactionAmount :: "host \<Rightarrow> TransactionAnalyzer \<Rightarrow> jsnum" where
  "calculateAverageTransactionAmount h this =
     (if length (transactions this) = 0 then Num 0
      else let totalAmount =
                 foldl (\<lambda>accumulator t. js_add accumulator (parseFloat h (transaction_amount t)))
                   (Num 0) (transactions this)
           in js_div totalAmount (Num (real (length (transactions this)))))"

definition getTransactionsByAmountRange ::
  "host \<Rightarrow> TransactionAnalyzer \<Rightarrow> jsnum \<Rightarrow> jsnum \<Rightarrow> transaction list" where
  "getTransactionsByAmountRange h this minAmount maxAmount =
     filter (\<lambda>t. let amount = parseFloat h (transaction_amount t)
                 in js_ge amount minAmount \<and> js_le amount maxAmount)
       (transactions this)"

definition calculateTotalDebitAmount :: "host \<Rightarrow> TransactionAnalyzer \<Rightarrow> jsnum" where
  "calculateTotalDebitAmount h this =
     foldl (\<lambda>total t.
              if transaction_type t = String ''debit''
              then js_add total (parseFloat h (transaction_amount t))
              else total)
       (Num 0) (transactions this)"

section \<open>Counting by month\<close>

text \<open>
  The counters live in an object indexed by \<open>getMonth()\<close>. The property key is the
  number as a string: the index \<open>"0"\<close> to \<open>"11"\<close> of a valid date, \<open>"NaN"\<close> of an
  invalid one.
\<close>

datatype propkey = Idx nat | KeyNaN

fun monthKey :: "jsdate \<Rightarrow> propkey" where
  "monthKey InvalidDate = KeyNaN"
| "monthKey (DateObj tv y m d) = Idx m"

text \<open>
  An object is the list of its properties in the order \<open>for ... in\<close> visits them:
  index keys in ascending numeric order, then string keys in the order of creation.
\<close>

type_synonym counters = "(propkey \<times> nat) list"

fun key_before :: "propkey \<Rightarrow> propkey \<Rightarrow> bool" where
  "key_before (Idx a) (Idx b) = (a < b)"
| "key_before (Idx a) KeyNaN = True"
| "key_before KeyNaN _ = False"

definition obj_get :: "counters \<Rightarrow> propkey \<Rightarrow> nat option" where
  "obj_get obj k = map_of obj k"

text \<open>Assignment to a property: an existing one keeps its place, a new one is created.\<close>

fun obj_put :: "propkey \<Rightarrow> nat \<Rightarrow> counters \<Rightarrow> counters" where
  "obj_put k v [] = [(k, v)]"
| "obj_put k v ((k', v') # rest) =
     (if k = k' then (k, v) # rest
      else if key_before k k' then (k, v) # (k', v') # rest
      else (k', v') # obj_put k v rest)"

text \<open>
  The body of the counting loop: a counter that is missing (or zero) is set to 0,
  then the counter is incremented.
\<close>

definition countMonth :: "propkey \<Rightarrow> counters \<Rightarrow> counters" where
  "countMonth month obj =
     (let obj0 = (case obj_get obj month of
                    None \<Rightarrow> obj_put month 0 obj
                  | Some c \<Rightarrow> if c = 0 then obj_put month 0 obj else obj)
      in case obj_get obj0 month of
           None \<Rightarrow> obj0
         | Some c \<Rightarrow> obj_put month (c + 1) obj0)"

text \<open>
  The selection loop: the variable holding the month starts as \<open>null\<close> (\<open>None\<close>),
  the maximum as 0, and only a strictly greater counter replaces them.
\<close>

definition selectMonth :: "counters \<Rightarrow> propkey option \<times> nat" where
  "selectMonth obj =
     foldl (\<lambda>(mostMonth, maxCount) (month, c).
              if c > maxCount then (Some month, c) else (mostMonth, maxCount))
       (None, 0) obj"

text \<open>\<open>parseInt\<close> of \<open>null\<close> and of the key \<open>"NaN"\<close> is NaN.\<close>

fun parseInt :: "propkey option \<Rightarrow> jsnum" where
  "parseInt None = NaN"
| "parseInt (Some KeyNaN) = NaN"
| "parseInt (Some (Idx n)) = Num (real n)"

definition transactionCountByMonth :: "host \<Rightarrow> TransactionAnalyzer \<Rightarrow> counters" where
  "transactionCountByMonth h this =
     foldl (\<lambda>obj t. countMonth (monthKey (newDate h (transaction_date t))) obj)
       [] (transactions this)"

definition findMostTransactionsMonth :: "host \<Rightarrow> TransactionAnalyzer \<Rightarrow> jsnum" where
  "findMostTransactionsMonth h this =
     (let mostTransactionsMonth = fst (selectMonth (transactionCountByMonth h this))
      in js_add (parseInt mostTransactionsMonth) (Num 1))"

definition debitTransactionCountByMonth :: "host \<Rightarrow> TransactionAnalyzer \<Rightarrow> counters" where
  "debitTransactionCountByMonth h this =
     foldl (\<lambda>obj t.
              if transaction_type t = String ''debit''
              then countMonth (monthKey (newDate h (transaction_date t))) obj
              else obj)
       [] (transactions this)"

definition findMostDebitTransactionMonth :: "host \<Rightarrow> TransactionAnalyzer \<Rightarrow> jsnum" where
  "findMostDebitTransactionMonth h this =
     (let mostDebitTransactionMonth = fst (selectMonth (debitTransactionCountByMonth h this))
      in js_add (parseInt mostDebitTransactionMonth) (Num 1))"

section \<open>A sample host\<close>

text \<open>
  The examples below run on a host in the UTC time zone. Its \<open>parseFloat\<close> reads
  the longest decimal literal at the start of a string (after white space), and gives a
  number back as it is; its \<open>Date\<close> reads the calendar form \<open>yyyy-mm-dd\<close> as
  midnight UTC of that day. Other date formats are outside this sample: it takes them
  as invalid dates.
\<close>

definition is_digit :: "char \<Rightarrow> bool" where
  "is_digit c = (48 \<le> (of_char c :: nat) \<and> (of_char c :: nat) \<le> 57)"

definition is_space :: "char \<Rightarrow> bool" where
  "is_space c = ((of_char c :: nat) \<in> {9, 10, 11, 12, 13, 32})"

definition digits_value :: "string \<Rightarrow> nat" where
  "digits_value ds = foldl (\<lambda>a c. 10 * a + ((of_char c :: nat) - 48)) 0 ds"

definition split_sign :: "string \<Rightarrow> bool \<times> string" where
  "split_sign s =
     (case s of
        [] \<Rightarrow> (False, [])
      | c # r \<Rightarrow> if c = CHR ''-'' then (True, r)
                 else if c = CHR ''+'' then (False, r) else (False, s))"

definition split_fraction :: "string \<Rightarrow> string \<times> string" where
  "split_fraction s =
     (case s of
        [] \<Rightarrow> ([], [])
      | c # r \<Rightarrow> if c = CHR ''.'' then (takeWhile is_digit r, dropWhile is_digit r)
                 else ([], s))"

definition exponent_of :: "string \<Rightarrow> int" where
  "exponent_of s =
     (case s of
        [] \<Rightarrow> 0
      | c # r \<Rightarrow>
          if c = CHR ''e'' \<or> c = CHR ''E''
          then (let (neg, r') = split_sign r; ds = takeWhile is_digit r'
                in if neg then - int (digits_value ds) else int (digits_value ds))
          else 0)"

definition parse_decimal :: "string \<Rightarrow> jsnum" where
  "parse_decimal s =
     (let (neg, s2) = split_sign (dropWhile is_space s)
      in if take 8 s2 = ''Infinity'' then (if neg then NegInf else PosInf)
         else
           let ip = takeWhile is_digit s2;
               (fp, r2) = split_fraction (dropWhile is_digit s2)
           in if ip = [] \<and> fp = [] then NaN
              else
                let mant = real (digits_value ip) + real (digits_value fp) / 10 ^ length fp;
                    e = exponent_of r2;
                    v = (if 0 \<le> e then mant * 10 ^ nat e else mant / 10 ^ nat (- e))
                in Num (if neg then - v else v))"

fun utc_parseFloat :: "jsval \<Rightarrow> jsnum" where
  "utc_parseFloat (Number n) = n"
| "utc_parseFloat (String s) = parse_decimal s"
| "utc_parseFloat _ = NaN"

definition days_in_month :: "int \<Rightarrow> nat \<Rightarrow> nat" where
  "days_in_month y m =
     (if m = 2 then (if y mod 4 = 0 \<and> (y mod 100 \<noteq> 0 \<or> y mod 400 = 0) then 29 else 28)
      else if m = 4 \<or> m = 6 \<or> m = 9 \<or> m = 11 then 30 else 31)"

text \<open>Days from 1970-01-01 to the given day of the proleptic Gregorian calendar.\<close>

definition days_from_civil :: "int \<Rightarrow> nat \<Rightarrow> nat \<Rightarrow> int" where
  "days_from_civil y m d =
     (let y' = (if m \<le> 2 then y - 1 else y);
          era = y' div 400;
          yoe = y' - era * 400;
          mp = (if m > 2 then int m - 3 else int m + 9);
          doy = (153 * mp + 2) div 5 + int d - 1;
          doe = yoe * 365 + yoe div 4 - yoe div 100 + doy
      in era * 146097 + doe - 719468)"

definition parse_iso_date :: "string \<Rightarrow> jsdate" where
  "parse_iso_date s =
     (if length s = 10 \<and> s ! 4 = CHR ''-'' \<and> s ! 7 = CHR ''-'' \<and>
         list_all is_digit (take 4 s) \<and> list_all is_digit (take 2 (drop 5 s)) \<and>
         list_all is_digit (drop 8 s)
      then
        let y = int (digits_value (take 4 s));
            m = digits_value (take 2 (drop 5 s));
            d = digits_value (drop 8 s)
        in if 1 \<le> m \<and> m \<le> 12 \<and> 1 \<le> d \<and> d \<le> days_in_month y m
           then DateObj (days_from_civil y m d * 86400000) y (m - 1) d
           else InvalidDate
      else InvalidDate)"

fun utc_newDate :: "jsval \<Rightarrow> jsdate" where
  "utc_newDate (String s) = parse_iso_date s"
| "utc_newDate _ = InvalidDate"

definition utcHost :: host where
  "utcHost = \<lparr>parseFloat = utc_parseFloat, newDate = utc_newDate\<rparr>"

text \<open>A record as the JSON file holds it.\<close>

definition mkTransaction :: "string \<Rightarrow> string \<Rightarrow> jsval \<Rightarrow> string \<Rightarrow> transaction" where
  "mkTransaction i d a ty =
     \<lparr>transaction_id = String i, transaction_date = String d, transaction_amount = a,
      transaction_type = String ty, transaction_description = String [],
      merchant_name = String []\<rparr>"

text \<open>Three records of the sample: the third has an amount that is not a number.\<close>

definition tx_a :: transaction where
  "tx_a = mkTransaction ''1'' ''2019-01-14'' (String ''100'') ''debit''"

definition tx_b :: transaction where
  "tx_b = mkTransaction ''2'' ''2019-01-15'' (Number (Num 200)) ''credit''"

definition tx_c :: transaction where
  "tx_c = mkTransaction ''3'' ''2019-02-03'' (String ''abc'') ''debit''"

text \<open>A record whose date is not a date.\<close>

definition tx_g :: transaction where
  "tx_g = mkTransaction ''4'' ''garbage'' (String ''5'') ''debit''"

section \<open>Specification-side notions\<close>

text \<open>
  A month or day that the bounds check of \<open>calculateTotalAmountByDate\<close> turns down:
  a number below 1 or above the bound. An argument left out, and NaN, compare false
  with everything and pass.
\<close>

fun out_of_range :: "arg \<Rightarrow> real \<Rightarrow> bool" where
  "out_of_range None hi = False"
| "out_of_range (Some NaN) hi = False"
| "out_of_range (Some (Num r)) hi = (r < 1 \<or> hi < r)"
| "out_of_range (Some PosInf) hi = True"
| "out_of_range (Some NegInf) hi = True"

text \<open>
  A wildcard component, following the specification: absent, NaN or zero.
\<close>

fun wildcard :: "arg \<Rightarrow> bool" where
  "wildcard None = True"
| "wildcard (Some NaN) = True"
| "wildcard (Some (Num r)) = (r = 0)"
| "wildcard (Some _) = False"

text \<open>
  A date agrees with the target when each component that is not a wildcard equals the
  date's: the year and the day as they are, the month counted from 1.
\<close>

fun agrees_month :: "arg \<Rightarrow> jsdate \<Rightarrow> bool" where
  "agrees_month (Some (Num m)) (DateObj tv y mi d) = (real mi + 1 = m)"
| "agrees_month _ _ = False"

fun agrees_year :: "arg \<Rightarrow> jsdate \<Rightarrow> bool" where
  "agrees_year (Some (Num r)) (DateObj tv y mi d) = (real_of_int y = r)"
| "agrees_year _ _ = False"

fun agrees_day :: "arg \<Rightarrow> jsdate \<Rightarrow> bool" where
  "agrees_day (Some (Num r)) (DateObj tv y mi d) = (real d = r)"
| "agrees_day _ _ = False"

definition agrees :: "arg \<Rightarrow> arg \<Rightarrow> arg \<Rightarrow> jsdate \<Rightarrow> bool" where
  "agrees year month day dt =
     ((wildcard year \<or> agrees_year year dt) \<and>
      (wildcard month \<or> agrees_month month dt) \<and>
      (wildcard day \<or> agrees_day day dt))"

text \<open>The number of records of a ledger that fall in the bucket of a key.\<close>

definition bucketCount :: "host \<Rightarrow> transaction list \<Rightarrow> propkey \<Rightarrow> nat" where
  "bucketCount h ts k =
     length (filter (\<lambda>t. monthKey (newDate h (transaction_date t)) = k) ts)"

section \<open>Evaluation on the sample\<close>

lemma parseFloat_tx_a: "parseFloat utcHost (transaction_amount tx_a) = Num 100"
  by (simp add: utcHost_def tx_a_def mkTransaction_def parse_decimal_def split_sign_def
      is_digit_def is_space_def digits_value_def split_fraction_def exponent_of_def)

lemma parseFloat_tx_b: "parseFloat utcHost (transaction_amount tx_b) = Num 200"
  by (simp add: utcHost_def tx_b_def mkTransaction_def)

lemma parseFloat_tx_c: "parseFloat utcHost (transaction_amount tx_c) = NaN"
  by (simp add: utcHost_def tx_c_def mkTransaction_def parse_decimal_def split_sign_def
      is_digit_def is_space_def digits_value_def split_fraction_def exponent_of_def)

lemma newDate_tx_a:
  "newDate utcHost (transaction_date tx_a) = DateObj 1547424000000 2019 0 14"
  by (simp add: utcHost_def tx_a_def mkTransaction_def parse_iso_date_def is_digit_def
      digits_value_def days_in_month_def days_from_civil_def)

lemma newDate_tx_b:
  "newDate utcHost (transaction_date tx_b) = DateObj 1547510400000 2019 0 15"
  by (simp add: utcHost_def tx_b_def mkTransaction_def parse_iso_date_def is_digit_def
      digits_value_def days_in_month_def days_from_civil_def)

lemma newDate_tx_c:
  "newDate utcHost (transaction_date tx_c) = DateObj 1549152000000 2019 1 3"
  by (simp add: utcHost_def tx_c_def mkTransaction_def parse_iso_date_def is_digit_def
      digits_value_def days_in_month_def days_from_civil_def)

lemma newDate_tx_g: "newDate utcHost (transaction_date tx_g) = InvalidDate"
  by (simp add: utcHost_def tx_g_def mkTransaction_def parse_iso_date_def)

lemma type_tx:
  "transaction_type tx_a = String ''debit''"
  "transaction_type tx_b = String ''credit''"
  "transaction_type tx_c = String ''debit''"
  by (simp_all add: tx_a_def tx_b_def tx_c_def mkTransaction_def)

section \<open>Appending and reading back\<close>

lemma foldl_addTransaction:
  "transactions (foldl (\<lambda>a r. addTransaction r a) this records) = transactions this @ records"
  by (induction records arbitrary: this) (simp_all add: addTransaction_def)

text \<open>
  C8. \<open>addTransaction\<close> has no failing branch and puts the record at the end; after
  appending a sequence of records one by one, \<open>getAllTransactions\<close> gives the original
  records followed by the appended ones in the order of appending, so its length is the
  original length plus the number of appended records.
\<close>

theorem addTransaction_appends_in_order:
  "getAllTransactions (addTransaction r this) = getAllTransactions this @ [r] \<and>
   getAllTransactions (foldl (\<lambda>a r. addTransaction r a) this records)
     = getAllTransactions this @ records \<and>
   length (getAllTransactions (foldl (\<lambda>a r. addTransaction r a) this records))
     = length (getAllTransactions this) + length records"
  by (simp add: getAllTransactions_def foldl_addTransaction) (simp add: addTransaction_def)

section \<open>Distinct types\<close>

lemma unique_first_seen:
  "foldl (\<lambda>u t. Set_add (f t) u) [] ts = rev (remdups (rev (map f ts)))"
proof (induction ts rule: rev_induct)
  case Nil
  show ?case by simp
next
  case (snoc t ts)
  have "foldl (\<lambda>u t. Set_add (f t) u) [] (ts @ [t])
          = Set_add (f t) (rev (remdups (rev (map f ts))))"
    using snoc.IH by simp
  then show ?case
    by (simp add: Set_add_def)
qed

text \<open>
  C7. \<open>getUniqueTransactionType\<close> returns the types of the ledger with every
  repetition after the first occurrence dropped (\<open>remdups\<close> keeps the last occurrence
  of each element, so on the reversed list it keeps the first): the result has no
  duplicates and holds exactly the types that occur. On three records of types
  debit, credit, debit it returns debit, credit.
\<close>

theorem getUniqueTransactionType_first_seen:
  "getUniqueTransactionType this
     = rev (remdups (rev (map transaction_type (transactions this)))) \<and>
   distinct (getUniqueTransactionType this) \<and>
   set (getUniqueTransactionType this) = transaction_type ` set (transactions this) \<and>
   getUniqueTransactionType
     \<lparr>transactions = [mkTransaction i1 d1 a1 ''debit'', mkTransaction i2 d2 a2 ''credit'',
                      mkTransaction i3 d3 a3 ''debit'']\<rparr>
     = [String ''debit'', String ''credit'']"
proof -
  have "getUniqueTransactionType
     \<lparr>transactions = [mkTransaction i1 d1 a1 ''debit'', mkTransaction i2 d2 a2 ''credit'',
                      mkTransaction i3 d3 a3 ''debit'']\<rparr>
     = [String ''debit'', String ''credit'']"
    by (simp add: getUniqueTransactionType_def mkTransaction_def Set_add_def)
  then show ?thesis
    by (simp add: getUniqueTransactionType_def unique_first_seen)
qed

section \<open>Average\<close>

text \<open>
  C6. \<open>calculateAverageTransactionAmount\<close> returns 0 on the empty ledger; on any
  other ledger it returns the sum of the coerced amounts, accumulated from 0 in ledger
  order, divided by the number of records; on one record whose amount coerces to 50 it
  returns 50, and on two records whose amounts coerce to 100 and to 200 it returns 150.
\<close>

theorem calculateAverageTransactionAmount_spec:
  "calculateAverageTransactionAmount h \<lparr>transactions = []\<rparr> = Num 0 \<and>
   (transactions this \<noteq> [] \<longrightarrow>
      calculateAverageTransactionAmount h this
        = js_div (foldl js_add (Num 0)
                    (map (\<lambda>t. parseFloat h (transaction_amount t)) (transactions this)))
            (Num (real (length (transactions this))))) \<and>
   (parseFloat h (transaction_amount t) = Num 50 \<longrightarrow>
      calculateAverageTransactionAmount h \<lparr>transactions = [t]\<rparr> = Num 50) \<and>
   (parseFloat h (transaction_amount t1) = Num 100 \<and>
    parseFloat h (transaction_amount t2) = Num 200 \<longrightarrow>
      calculateAverageTransactionAmount h \<lparr>transactions = [t1, t2]\<rparr> = Num 150)"
  by (simp add: calculateAverageTransactionAmount_def foldl_map)

text \<open>
  On the sample: one record of amount 50 averages to 50, and the two records of
  amounts 100 and 200 average to 150.
\<close>

theorem calculateAverageTransactionAmount_spec_witness:
  "transactions \<lparr>transactions = [tx_a, tx_b]\<rparr> \<noteq> [] \<and>
   parseFloat utcHost (transaction_amount tx_a) = Num 100 \<and>
   parseFloat utcHost (transaction_amount tx_b) = Num 200 \<and>
   calculateAverageTransactionAmount utcHost \<lparr>transactions = [tx_a, tx_b]\<rparr> = Num 150 \<and>
   parseFloat utcHost
     (transaction_amount (mkTransaction ''1'' ''2019-01-14'' (String ''50'') ''debit'')) = Num 50 \<and>
   calculateAverageTransactionAmount utcHost
     \<lparr>transactions = [mkTransaction ''1'' ''2019-01-14'' (String ''50'') ''debit'']\<rparr> = Num 50"
proof -
  have a: "parseFloat utcHost
             (transaction_amount (mkTransaction ''1'' ''2019-01-14'' (String ''50'') ''debit''))
           = Num 50"
    by (simp add: utcHost_def mkTransaction_def parse_decimal_def split_sign_def is_digit_def
        is_space_def digits_value_def split_fraction_def exponent_of_def)
  have b: "calculateAverageTransactionAmount utcHost
     \<lparr>transactions = [mkTransaction ''1'' ''2019-01-14'' (String ''50'') ''debit'']\<rparr> = Num 50"
    using calculateAverageTransactionAmount_spec
         [of utcHost "\<lparr>transactions = []\<rparr>"
             "mkTransaction ''1'' ''2019-01-14'' (String ''50'') ''debit''" tx_a tx_b] a
    by blast
  have "transactions \<lparr>transactions = [tx_a, tx_b]\<rparr> \<noteq> []"
    by simp
  with calculateAverageTransactionAmount_spec
         [of utcHost "\<lparr>transactions = [tx_a, tx_b]\<rparr>" tx_a tx_a tx_b]
  have "calculateAverageTransactionAmount utcHost \<lparr>transactions = [tx_a, tx_b]\<rparr>
          = js_div (foldl js_add (Num 0)
                      (map (\<lambda>t. parseFloat utcHost (transaction_amount t))
                         (transactions \<lparr>transactions = [tx_a, tx_b]\<rparr>)))
              (Num (real (length (transactions \<lparr>transactions = [tx_a, tx_b]\<rparr>))))"
    by blast
  then have c: "calculateAverageTransactionAmount utcHost \<lparr>transactions = [tx_a, tx_b]\<rparr> = Num 150"
    by (simp add: parseFloat_tx_a parseFloat_tx_b)
  from a b c show ?thesis
    by (simp add: parseFloat_tx_a parseFloat_tx_b)
qed

section \<open>Amounts in a range\<close>

text \<open>
  C10. No record whose amount coerces to NaN is in the result of
  \<open>getTransactionsByAmountRange\<close>, whatever the bounds: NaN passes neither comparison.
\<close>

theorem getTransactionsByAmountRange_excludes_NaN:
  "\<forall>t \<in> set (getTransactionsByAmountRange h this minAmount maxAmount).
     parseFloat h (transaction_amount t) \<noteq> NaN"
  by (simp add: getTransactionsByAmountRange_def js_le_def js_ge_def Let_def)

theorem getTransactionsByAmountRange_excludes_NaN_witness:
  "js_le (Num 0) (Num 200) \<and>
   parseFloat utcHost (transaction_amount tx_c) = NaN \<and>
   tx_c \<notin> set (getTransactionsByAmountRange utcHost \<lparr>transactions = [tx_c, tx_a]\<rparr> (Num 0) (Num 200)) \<and>
   tx_a \<in> set (getTransactionsByAmountRange utcHost \<lparr>transactions = [tx_c, tx_a]\<rparr> (Num 0) (Num 200))"
proof -
  have "tx_a \<in> set (getTransactionsByAmountRange utcHost \<lparr>transactions = [tx_c, tx_a]\<rparr> (Num 0) (Num 200))"
    by (simp add: getTransactionsByAmountRange_def parseFloat_tx_a js_le_def js_ge_def)
  moreover have "tx_c \<notin> set (getTransactionsByAmountRange utcHost \<lparr>transactions = [tx_c, tx_a]\<rparr> (Num 0) (Num 200))"
    using getTransactionsByAmountRange_excludes_NaN
            [of utcHost "\<lparr>transactions = [tx_c, tx_a]\<rparr>" "Num 0" "Num 200"] parseFloat_tx_c
    by blast
  ultimately show ?thesis
    by (simp add: parseFloat_tx_c js_le_def)
qed

section \<open>Records in a date range\<close>

lemma js_range_iff:
  "js_ge (valueOf d) (valueOf s) \<and> js_le (valueOf d) (valueOf e) \<longleftrightarrow>
   (\<exists>a x b. valueOf s = Num a \<and> valueOf d = Num x \<and> valueOf e = Num b \<and> a \<le> x \<and> x \<le> b)"
  by (cases d; cases s; cases e) (auto simp: js_ge_def js_le_def)

lemma js_gt_valueOf:
  "js_gt (valueOf s) (valueOf e) \<longleftrightarrow> (\<exists>a b. valueOf s = Num a \<and> valueOf e = Num b \<and> b < a)"
  by (cases s; cases e) (auto simp: js_gt_def)

text \<open>
  C9. \<open>getTransactionsInDateRange\<close> returns, in ledger order, exactly the records whose
  date has a time value between those of the two bounds, both included; a record or a
  bound that is an invalid date has no time value, and then nothing is selected. When
  the start is strictly after the end the result is empty: the bounds are not swapped.
\<close>

theorem getTransactionsInDateRange_inclusive:
  "getTransactionsInDateRange h this startDate endDate
     = filter (\<lambda>t. \<exists>a x b. valueOf (newDate h startDate) = Num a \<and>
                            valueOf (newDate h (transaction_date t)) = Num x \<and>
                            valueOf (newDate h endDate) = Num b \<and> a \<le> x \<and> x \<le> b)
         (transactions this) \<and>
   (js_gt (valueOf (newDate h startDate)) (valueOf (newDate h endDate)) \<longrightarrow>
      getTransactionsInDateRange h this startDate endDate = [])"
proof -
  have 1: "getTransactionsInDateRange h this startDate endDate
     = filter (\<lambda>t. \<exists>a x b. valueOf (newDate h startDate) = Num a \<and>
                            valueOf (newDate h (transaction_date t)) = Num x \<and>
                            valueOf (newDate h endDate) = Num b \<and> a \<le> x \<and> x \<le> b)
         (transactions this)"
    unfolding getTransactionsInDateRange_def Let_def js_range_iff ..
  have 2: "getTransactionsInDateRange h this startDate endDate = []"
    if "js_gt (valueOf (newDate h startDate)) (valueOf (newDate h endDate))"
  proof -
    from that obtain a b where "valueOf (newDate h startDate) = Num a"
      "valueOf (newDate h endDate) = Num b" "b < a"
      unfolding js_gt_valueOf by blast
    then show ?thesis unfolding 1 by (auto simp: filter_empty_conv)
  qed
  from 1 2 show ?thesis by blast
qed

lemma utc_start: "newDate utcHost (String ''2019-01-15'') = DateObj 1547510400000 2019 0 15"
  by (simp add: utcHost_def parse_iso_date_def is_digit_def
      digits_value_def days_in_month_def days_from_civil_def)
lemma utc_end: "newDate utcHost (String ''2019-02-03'') = DateObj 1549152000000 2019 1 3"
  by (simp add: utcHost_def parse_iso_date_def is_digit_def
      digits_value_def days_in_month_def days_from_civil_def)

theorem getTransactionsInDateRange_inclusive_witness:
  "getTransactionsInDateRange utcHost \<lparr>transactions = [tx_a, tx_b, tx_c]\<rparr>
      (String ''2019-01-15'') (String ''2019-02-03'') = [tx_b, tx_c] \<and>
   js_gt (valueOf (newDate utcHost (String ''2019-02-03'')))
         (valueOf (newDate utcHost (String ''2019-01-15''))) \<and>
   getTransactionsInDateRange utcHost \<lparr>transactions = [tx_a, tx_b, tx_c]\<rparr>
      (String ''2019-02-03'') (String ''2019-01-15'') = []"
proof -
  have g: "js_gt (valueOf (newDate utcHost (String ''2019-02-03'')))
         (valueOf (newDate utcHost (String ''2019-01-15'')))"
    by (simp add: utc_start utc_end js_gt_def)
  have a: "getTransactionsInDateRange utcHost \<lparr>transactions = [tx_a, tx_b, tx_c]\<rparr>
      (String ''2019-01-15'') (String ''2019-02-03'') = [tx_b, tx_c]"
    using getTransactionsInDateRange_inclusive
      [of utcHost "\<lparr>transactions = [tx_a, tx_b, tx_c]\<rparr>" "String ''2019-01-15''" "String ''2019-02-03''"]
    by (simp add: utc_start utc_end newDate_tx_a newDate_tx_b newDate_tx_c)
  have b: "getTransactionsInDateRange utcHost \<lparr>transactions = [tx_a, tx_b, tx_c]\<rparr>
      (String ''2019-02-03'') (String ''2019-01-15'') = []"
    using getTransactionsInDateRange_inclusive
      [of utcHost "\<lparr>transactions = [tx_a, tx_b, tx_c]\<rparr>" "String ''2019-02-03''" "String ''2019-01-15''"] g
    by blast
  from g a b show ?thesis by blast
qed

section \<open>Total by date\<close>

lemma bounds_check_iff:
  "js_lt (ToNumber a) (Num 1) \<or> js_gt (ToNumber a) (Num hi) \<longleftrightarrow> out_of_range a hi"
  by (cases "(a, hi)" rule: out_of_range.cases) (auto simp: js_gt_def)

lemma truthy_wildcard: "truthy a \<longleftrightarrow> \<not> wildcard a"
  by (cases a rule: wildcard.cases) auto

lemma year_eq_agrees: "truthy a \<Longrightarrow> strict_eq (getFullYear dt) a \<longleftrightarrow> agrees_year a dt"
  by (cases dt; cases a rule: wildcard.cases) (auto simp: num_eq_def)

lemma day_eq_agrees: "truthy a \<Longrightarrow> strict_eq (getDate dt) a \<longleftrightarrow> agrees_day a dt"
  by (cases dt; cases a rule: wildcard.cases) (auto simp: num_eq_def)

lemma month_eq_agrees:
  "truthy a \<Longrightarrow> num_eq (getMonth dt) (js_sub (ToNumber a) (Num 1)) \<longleftrightarrow> agrees_month a dt"
  by (cases dt; cases a rule: wildcard.cases) (auto simp: num_eq_def js_sub_def)

lemma isSameDate_agrees: "isSameDate year month day dt = agrees year month day dt"
  unfolding isSameDate_def agrees_def
  using year_eq_agrees [of year dt] month_eq_agrees [of month dt] day_eq_agrees [of day dt]
    truthy_wildcard [of year] truthy_wildcard [of month] truthy_wildcard [of day]
  by blast

lemma foldl_if_filter:
  "foldl (\<lambda>acc t. if P t then js_add acc (f t) else acc) z ts
     = foldl js_add z (map f (filter P ts))"
  by (induction ts arbitrary: z) simp_all


text \<open>
  C1 (as amended). A component of the target that is absent or NaN, and a year of 0,
  is a wildcard. A month or a day of 0 is not: the bounds check turns it down, an error
  is reported and 0 returned. Whenever the bounds check passes (month absent, NaN or
  between 1 and 12; day absent, NaN or between 1 and 31) nothing is reported and the
  result is the sum, accumulated from 0 in ledger order, of the coerced amounts of
  the records whose date agrees with the components that are not wildcards.
\<close>

theorem calculateTotalAmountByDate_wildcards:
  "(\<not> out_of_range month 12 \<and> \<not> out_of_range day 31 \<longrightarrow>
      calculateTotalAmountByDate h this year month day
        = ([], foldl js_add (Num 0)
                 (map (\<lambda>t. parseFloat h (transaction_amount t))
                    (filter (\<lambda>t. agrees year month day (newDate h (transaction_date t)))
                       (transactions this))))) \<and>
   (month = Some (Num 0) \<or> day = Some (Num 0) \<longrightarrow>
      calculateTotalAmountByDate h this year month day = ([WrongDateMessage], Num 0))"
proof -
  have pass: "calculateTotalAmountByDate h this year month day
        = ([], foldl js_add (Num 0)
                 (map (\<lambda>t. parseFloat h (transaction_amount t))
                    (filter (\<lambda>t. agrees year month day (newDate h (transaction_date t)))
                       (transactions this))))"
    if "\<not> out_of_range month 12" and "\<not> out_of_range day 31"
  proof -
    have "\<not> (js_lt (ToNumber month) (Num 1) \<or> js_gt (ToNumber month) (Num 12) \<or>
              js_lt (ToNumber day) (Num 1) \<or> js_gt (ToNumber day) (Num 31))"
      using that bounds_check_iff [of month 12] bounds_check_iff [of day 31] by blast
    then show ?thesis
      by (simp add: calculateTotalAmountByDate_def isSameDate_agrees foldl_if_filter)
  qed
  have zero: "calculateTotalAmountByDate h this year month day = ([WrongDateMessage], Num 0)"
    if "month = Some (Num 0) \<or> day = Some (Num 0)"
    using that by (auto simp: calculateTotalAmountByDate_def)
  from pass zero show ?thesis by blast
qed

text \<open>
  The year 2019 and the month 1 with the day left out select the two January records
  of the sample.
\<close>

theorem calculateTotalAmountByDate_wildcards_witness:
  "\<not> out_of_range (Some (Num 1)) 12 \<and> \<not> out_of_range None 31 \<and>
   calculateTotalAmountByDate utcHost \<lparr>transactions = [tx_a, tx_b, tx_c]\<rparr>
      (Some (Num 2019)) (Some (Num 1)) None = ([], Num 300) \<and>
   calculateTotalAmountByDate utcHost \<lparr>transactions = [tx_a, tx_b, tx_c]\<rparr>
      (Some (Num 2019)) (Some (Num 0)) None = ([WrongDateMessage], Num 0)"
proof -
  have a: "calculateTotalAmountByDate utcHost \<lparr>transactions = [tx_a, tx_b, tx_c]\<rparr>
      (Some (Num 2019)) (Some (Num 1)) None = ([], Num 300)"
    using calculateTotalAmountByDate_wildcards
      [of "Some (Num 1)" None utcHost "\<lparr>transactions = [tx_a, tx_b, tx_c]\<rparr>" "Some (Num 2019)"]
    by (simp add: agrees_def newDate_tx_a newDate_tx_b newDate_tx_c
        parseFloat_tx_a parseFloat_tx_b)
  have b: "calculateTotalAmountByDate utcHost \<lparr>transactions = [tx_a, tx_b, tx_c]\<rparr>
      (Some (Num 2019)) (Some (Num 0)) None = ([WrongDateMessage], Num 0)"
    using calculateTotalAmountByDate_wildcards
      [of "Some (Num 0)" None utcHost "\<lparr>transactions = [tx_a, tx_b, tx_c]\<rparr>" "Some (Num 2019)"]
    by simp
  from a b show ?thesis by simp
qed

text \<open>
  C1 as stated fails at month 0: the only record of the ledger agrees with the target
  2019, 0, 14 when 0 is read as a wildcard, and its amount is 100, but the call reports
  an error and returns 0.
\<close>

theorem calculateTotalAmountByDate_month_zero_counterexample:
  "wildcard (Some (Num 0)) \<and>
   agrees (Some (Num 2019)) (Some (Num 0)) (Some (Num 14)) (newDate utcHost (transaction_date tx_a)) \<and>
   parseFloat utcHost (transaction_amount tx_a) = Num 100 \<and>
   calculateTotalAmountByDate utcHost \<lparr>transactions = [tx_a]\<rparr>
      (Some (Num 2019)) (Some (Num 0)) (Some (Num 14)) = ([WrongDateMessage], Num 0)"
  by (simp add: agrees_def newDate_tx_a parseFloat_tx_a calculateTotalAmountByDate_def)

text \<open>
  C2 (as amended). The bounds are checked whenever month and day are numbers, zero
  included; only a component that is absent or NaN goes unchecked. If the month is
  below 1 or above 12, or the day below 1 or above 31, the call reports an error and
  returns 0 whatever the ledger holds, so without reading a record; this covers the
  call with 0, 13, 1. Otherwise no error is reported.
\<close>

theorem calculateTotalAmountByDate_bounds:
  "(out_of_range month 12 \<or> out_of_range day 31 \<longrightarrow>
      calculateTotalAmountByDate h this year month day = ([WrongDateMessage], Num 0)) \<and>
   (\<not> out_of_range month 12 \<and> \<not> out_of_range day 31 \<longrightarrow>
      fst (calculateTotalAmountByDate h this year month day) = [])"
proof -
  have "(js_lt (ToNumber month) (Num 1) \<or> js_gt (ToNumber month) (Num 12) \<or>
         js_lt (ToNumber day) (Num 1) \<or> js_gt (ToNumber day) (Num 31))
        = (out_of_range month 12 \<or> out_of_range day 31)"
    using bounds_check_iff [of month 12] bounds_check_iff [of day 31] by blast
  then show ?thesis
    by (simp add: calculateTotalAmountByDate_def)
qed

theorem calculateTotalAmountByDate_bounds_witness:
  "out_of_range (Some (Num 13)) 12 \<and>
   calculateTotalAmountByDate utcHost \<lparr>transactions = [tx_a, tx_c]\<rparr>
      (Some (Num 0)) (Some (Num 13)) (Some (Num 1)) = ([WrongDateMessage], Num 0) \<and>
   \<not> out_of_range (Some (Num 1)) 12 \<and> \<not> out_of_range (Some (Num 14)) 31 \<and>
   fst (calculateTotalAmountByDate utcHost \<lparr>transactions = [tx_a, tx_c]\<rparr>
      (Some (Num 2019)) (Some (Num 1)) (Some (Num 14))) = []"
proof -
  have a: "calculateTotalAmountByDate utcHost \<lparr>transactions = [tx_a, tx_c]\<rparr>
      (Some (Num 0)) (Some (Num 13)) (Some (Num 1)) = ([WrongDateMessage], Num 0)"
    using calculateTotalAmountByDate_bounds
      [of "Some (Num 13)" "Some (Num 1)" utcHost "\<lparr>transactions = [tx_a, tx_c]\<rparr>" "Some (Num 0)"]
    by simp
  have b: "fst (calculateTotalAmountByDate utcHost \<lparr>transactions = [tx_a, tx_c]\<rparr>
      (Some (Num 2019)) (Some (Num 1)) (Some (Num 14))) = []"
    using calculateTotalAmountByDate_bounds
      [of "Some (Num 1)" "Some (Num 14)" utcHost "\<lparr>transactions = [tx_a, tx_c]\<rparr>" "Some (Num 2019)"]
    by simp
  from a b show ?thesis by simp
qed

text \<open>
  C2 as stated fails at day 0: the day is not truthy and the month is truthy and in
  range, but the call reports an error and returns 0.
\<close>

theorem calculateTotalAmountByDate_day_zero_counterexample:
  "\<not> truthy (Some (Num 0)) \<and> truthy (Some (Num 1)) \<and> \<not> out_of_range (Some (Num 1)) 12 \<and>
   calculateTotalAmountByDate utcHost \<lparr>transactions = [tx_a]\<rparr>
      (Some (Num 2019)) (Some (Num 1)) (Some (Num 0)) = ([WrongDateMessage], Num 0)"
  by (simp add: calculateTotalAmountByDate_def)

section \<open>Total of all records\<close>

text \<open>
  C3. The claim is about the ledger of the instance the method is called on. The code
  sums the ledger of the global \<open>analyzer\<close> instead: with an empty global ledger, the
  total of an instance holding one debit record of amount 100 is 0, while its debit
  total is 100; and the total of an empty instance is 100 when the global ledger holds
  that record.
\<close>

theorem calculateTotalAmount_reads_global_analyzer:
  "calculateTotalAmount utcHost \<lparr>transactions = []\<rparr> \<lparr>transactions = [tx_a]\<rparr> = Num 0 \<and>
   calculateTotalDebitAmount utcHost \<lparr>transactions = [tx_a]\<rparr> = Num 100 \<and>
   calculateTotalAmount utcHost \<lparr>transactions = [tx_a]\<rparr> \<lparr>transactions = []\<rparr> = Num 100"
  by (simp add: calculateTotalAmount_def calculateTotalDebitAmount_def parseFloat_tx_a type_tx)

section \<open>The month with most transactions\<close>

lemma key_before_irrefl: "\<not> key_before k k"
  by (cases k) simp_all

lemma key_before_trans: "key_before a b \<Longrightarrow> key_before b c \<Longrightarrow> key_before a c"
  by (cases a; cases b; cases c) simp_all

lemma key_before_asym: "key_before a b \<Longrightarrow> \<not> key_before b a"
  by (cases a; cases b) simp_all

lemma key_before_total: "a \<noteq> b \<Longrightarrow> \<not> key_before a b \<Longrightarrow> key_before b a"
  by (cases a; cases b) auto

lemma map_of_obj_put: "map_of (obj_put k v obj) = (map_of obj)(k \<mapsto> v)"
  by (induction obj) (auto simp: fun_upd_twist)

lemma keys_obj_put: "fst ` set (obj_put k v obj) = insert k (fst ` set obj)"
proof -
  have "dom (map_of (obj_put k v obj)) = insert k (dom (map_of obj))"
    by (simp add: map_of_obj_put)
  then show ?thesis
    by (simp only: dom_map_of_conv_image_fst)
qed

lemma sorted_obj_put:
  "sorted_wrt key_before (map fst obj) \<Longrightarrow> sorted_wrt key_before (map fst (obj_put k v obj))"
proof (induction obj)
  case Nil
  show ?case by simp
next
  case (Cons p obj)
  obtain k' v' where p: "p = (k', v')" by (cases p)
  show ?case
  proof (cases "k = k'")
    case True
    with Cons.prems p show ?thesis by simp
  next
    case False
    show ?thesis
    proof (cases "key_before k k'")
      case True
      with Cons.prems p False show ?thesis
        by (auto intro: key_before_trans)
    next
      case nb: False
      have "key_before k' k" using False nb key_before_total by blast
      moreover have "sorted_wrt key_before (map fst (obj_put k v obj))"
        using Cons by simp
      moreover have "\<forall>x \<in> fst ` set (obj_put k v obj). key_before k' x"
        unfolding keys_obj_put using Cons.prems p \<open>key_before k' k\<close> by auto
      ultimately show ?thesis using p False nb by simp
    qed
  qed
qed

lemma map_of_countMonth:
  "map_of (countMonth k obj)
     = (map_of obj)(k \<mapsto> (case map_of obj k of None \<Rightarrow> 1 | Some c \<Rightarrow> c + 1))"
  by (auto simp: countMonth_def obj_get_def map_of_obj_put Let_def split: option.splits)

lemma sorted_countMonth:
  "sorted_wrt key_before (map fst obj) \<Longrightarrow> sorted_wrt key_before (map fst (countMonth k obj))"
  by (auto simp: countMonth_def obj_get_def Let_def sorted_obj_put split: option.splits)

lemma bucketCount_snoc:
  "bucketCount h (ts @ [t]) k
     = bucketCount h ts k + (if monthKey (newDate h (transaction_date t)) = k then 1 else 0)"
  by (simp add: bucketCount_def)

lemma counters_invariant:
  "sorted_wrt key_before
     (map fst (foldl (\<lambda>obj t. countMonth (monthKey (newDate h (transaction_date t))) obj) [] ts)) \<and>
   (\<forall>k. map_of (foldl (\<lambda>obj t. countMonth (monthKey (newDate h (transaction_date t))) obj) [] ts) k
        = (if bucketCount h ts k = 0 then None else Some (bucketCount h ts k)))"
proof (induction ts rule: rev_induct)
  case Nil
  show ?case by (simp add: bucketCount_def)
next
  case (snoc t ts)
  then show ?case
    by (simp add: sorted_countMonth map_of_countMonth bucketCount_snoc)
qed

lemma selectMonth_snoc:
  "selectMonth (obj @ [(k, c)])
     = (if c > snd (selectMonth obj) then (Some k, c) else selectMonth obj)"
  by (simp add: selectMonth_def split: prod.splits)

lemma selectMonth_first_max:
  assumes "sorted_wrt key_before (map fst obj)"
  shows "(fst (selectMonth obj) = None \<longrightarrow>
            snd (selectMonth obj) = 0 \<and> (\<forall>(k', v') \<in> set obj. v' = 0)) \<and>
         (\<forall>k. fst (selectMonth obj) = Some k \<longrightarrow>
            (k, snd (selectMonth obj)) \<in> set obj \<and> 0 < snd (selectMonth obj) \<and>
            (\<forall>(k', v') \<in> set obj.
               v' \<le> snd (selectMonth obj) \<and> (key_before k' k \<longrightarrow> v' < snd (selectMonth obj))))"
  using assms
proof (induction obj rule: rev_induct)
  case Nil
  show ?case by (simp add: selectMonth_def)
next
  case (snoc p obj)
  obtain k c where p: "p = (k, c)" by (cases p)
  have sorted: "sorted_wrt key_before (map fst obj)"
    and before: "\<forall>x \<in> set obj. key_before (fst x) k"
    using snoc.prems p by (auto simp: sorted_wrt_append)
  note IH = snoc.IH [OF sorted]
  show ?case
  proof (cases "c > snd (selectMonth obj)")
    case True
    have "\<forall>(k', v') \<in> set obj. v' \<le> snd (selectMonth obj)"
      using IH by (cases "fst (selectMonth obj)") auto
    with True show ?thesis
      by (auto simp: p selectMonth_snoc key_before_irrefl)
  next
    case False
    show ?thesis
    proof (cases "fst (selectMonth obj)")
      case None
      with IH False show ?thesis
        by (auto simp: p selectMonth_snoc)
    next
      case (Some k0)
      with IH have in0: "(k0, snd (selectMonth obj)) \<in> set obj" by blast
      then have "key_before k0 k" using before by force
      then have "\<not> key_before k k0" by (rule key_before_asym)
      with IH False Some show ?thesis
        by (auto simp: p selectMonth_snoc)
    qed
  qed
qed


lemma sorted_keys_distinct: "sorted_wrt key_before ks \<Longrightarrow> distinct ks"
  by (induction ks) (auto simp: key_before_irrefl)

lemma bucketCount_pos: "t \<in> set ts \<Longrightarrow> 0 < bucketCount h ts (monthKey (newDate h (transaction_date t)))"
  by (auto simp: bucketCount_def filter_empty_conv)

lemma bucketCount_KeyNaN:
  "\<forall>t \<in> set ts. newDate h (transaction_date t) \<noteq> InvalidDate \<Longrightarrow> bucketCount h ts KeyNaN = 0"
proof -
  assume v: "\<forall>t \<in> set ts. newDate h (transaction_date t) \<noteq> InvalidDate"
  have "monthKey d \<noteq> KeyNaN" if "d \<noteq> InvalidDate" for d
    using that by (cases d) simp_all
  with v show ?thesis
    by (simp add: bucketCount_def filter_empty_conv)
qed

lemma selected_bucket:
  assumes "transactions this \<noteq> []"
  shows "\<exists>k. findMostTransactionsMonth h this = js_add (parseInt (Some k)) (Num 1) \<and>
             0 < bucketCount h (transactions this) k \<and>
             (\<forall>k'. bucketCount h (transactions this) k' \<le> bucketCount h (transactions this) k) \<and>
             (\<forall>k'. key_before k' k \<longrightarrow>
                    bucketCount h (transactions this) k' < bucketCount h (transactions this) k) \<and>
             ((\<forall>t \<in> set (transactions this). newDate h (transaction_date t) \<noteq> InvalidDate) \<longrightarrow>
                (\<exists>m. k = Idx m \<and> findMostTransactionsMonth h this = Num (real m + 1) \<and>
                     (\<forall>m' < m. bucketCount h (transactions this) (Idx m')
                                 < bucketCount h (transactions this) (Idx m))))"
proof -
  define ts where "ts = transactions this"
  define obj where "obj = transactionCountByMonth h this"
  have sorted: "sorted_wrt key_before (map fst obj)"
    and lookup: "\<And>k. map_of obj k = (if bucketCount h ts k = 0 then None else Some (bucketCount h ts k))"
    using counters_invariant [of h ts]
    by (simp_all add: obj_def ts_def transactionCountByMonth_def)
  note sel = selectMonth_first_max [OF sorted]
  have entry: "(k, bucketCount h ts k) \<in> set obj" if "bucketCount h ts k \<noteq> 0" for k
    using that lookup [of k] by (simp add: map_of_SomeD)
  from assms obtain t where t: "t \<in> set ts"
    by (cases ts) (auto simp: ts_def)
  define kt where "kt = monthKey (newDate h (transaction_date t))"
  have "0 < bucketCount h ts kt"
    using t by (simp add: kt_def bucketCount_pos)
  with entry [of kt] have "\<exists>(k', v') \<in> set obj. v' \<noteq> 0" by force
  with sel have "fst (selectMonth obj) \<noteq> None" by auto
  then obtain k where k: "fst (selectMonth obj) = Some k" by blast
  define c where "c = snd (selectMonth obj)"
  from sel k have kc: "(k, c) \<in> set obj" and cpos: "0 < c"
    and mx: "\<And>k' v'. (k', v') \<in> set obj \<Longrightarrow> v' \<le> c"
    and first: "\<And>k' v'. (k', v') \<in> set obj \<Longrightarrow> key_before k' k \<Longrightarrow> v' < c"
    unfolding c_def by blast+
  have "map_of obj k = Some c"
    using kc sorted by (simp add: sorted_keys_distinct)
  with lookup [of k] have c: "c = bucketCount h ts k"
    by (simp split: if_splits)
  have le: "bucketCount h ts k' \<le> bucketCount h ts k" for k'
    using mx [OF entry [of k']] c by (cases "bucketCount h ts k' = 0") simp_all
  have lt: "bucketCount h ts k' < bucketCount h ts k" if "key_before k' k" for k'
    using first [OF entry [of k'] that] c cpos by (cases "bucketCount h ts k' = 0") simp_all
  have res: "findMostTransactionsMonth h this = js_add (parseInt (Some k)) (Num 1)"
    using k by (simp add: findMostTransactionsMonth_def obj_def)
  have valid: "\<exists>m. k = Idx m \<and> findMostTransactionsMonth h this = Num (real m + 1) \<and>
                 (\<forall>m' < m. bucketCount h ts (Idx m') < bucketCount h ts (Idx m))"
    if v: "\<forall>t \<in> set ts. newDate h (transaction_date t) \<noteq> InvalidDate"
  proof -
    have "k \<noteq> KeyNaN"
      using bucketCount_KeyNaN [OF v] c cpos by auto
    then obtain m where m: "k = Idx m" by (cases k) auto
    have "\<forall>m' < m. bucketCount h ts (Idx m') < bucketCount h ts (Idx m)"
      using lt m by simp
    with m res show ?thesis by simp
  qed
  from res c cpos le lt valid show ?thesis
    unfolding ts_def by (intro exI [of _ k]) simp
qed

text \<open>
  C4 (as amended). On every ledger that is not empty and whose dates are all valid,
  \<open>findMostTransactionsMonth\<close> returns \<open>m + 1\<close> for a month \<open>m\<close> (counted from 0) that
  holds at least one record, such that no month holds more and every month of a lower
  number holds strictly fewer: among the months of maximal count the lowest one wins.
  Records whose date is invalid are counted in one bucket of their own, visited after
  every month. On a ledger that is not empty the result is NaN exactly when that bucket
  holds strictly more records than every month; otherwise it is the month described
  above, no bucket holding more than it.
\<close>

theorem findMostTransactionsMonth_lowest_maximal_month:
  assumes "transactions this \<noteq> []"
  shows "((\<forall>t \<in> set (transactions this). newDate h (transaction_date t) \<noteq> InvalidDate) \<longrightarrow>
            (\<exists>m. findMostTransactionsMonth h this = Num (real m + 1) \<and>
                 0 < bucketCount h (transactions this) (Idx m) \<and>
                 (\<forall>m'. bucketCount h (transactions this) (Idx m')
                         \<le> bucketCount h (transactions this) (Idx m)) \<and>
                 (\<forall>m' < m. bucketCount h (transactions this) (Idx m')
                             < bucketCount h (transactions this) (Idx m)))) \<and>
         (if \<forall>m. bucketCount h (transactions this) (Idx m)
                   < bucketCount h (transactions this) KeyNaN
          then findMostTransactionsMonth h this = NaN
          else (\<exists>m. findMostTransactionsMonth h this = Num (real m + 1) \<and>
                    0 < bucketCount h (transactions this) (Idx m) \<and>
                    (\<forall>k. bucketCount h (transactions this) k
                           \<le> bucketCount h (transactions this) (Idx m)) \<and>
                    (\<forall>m' < m. bucketCount h (transactions this) (Idx m')
                                < bucketCount h (transactions this) (Idx m))))"
proof -
  define bc where "bc = bucketCount h (transactions this)"
  from selected_bucket [OF assms, of h] obtain k
    where res: "findMostTransactionsMonth h this = js_add (parseInt (Some k)) (Num 1)"
      and pos: "0 < bc k"
      and le: "\<And>k'. bc k' \<le> bc k"
      and lt: "\<And>k'. key_before k' k \<Longrightarrow> bc k' < bc k"
    unfolding bc_def by blast
  have general:
    "if \<forall>m. bc (Idx m) < bc KeyNaN
     then findMostTransactionsMonth h this = NaN
     else (\<exists>m. findMostTransactionsMonth h this = Num (real m + 1) \<and> 0 < bc (Idx m) \<and>
               (\<forall>k. bc k \<le> bc (Idx m)) \<and> (\<forall>m' < m. bc (Idx m') < bc (Idx m)))"
  proof (cases k)
    case KeyNaN
    have "\<forall>m. bc (Idx m) < bc KeyNaN"
      using lt KeyNaN by simp
    moreover have "findMostTransactionsMonth h this = NaN"
      using res KeyNaN by simp
    ultimately show ?thesis by simp
  next
    case (Idx m)
    have "\<not> bc (Idx m) < bc KeyNaN"
      using le [of KeyNaN] Idx by simp
    then have no: "\<not> (\<forall>m. bc (Idx m) < bc KeyNaN)" by blast
    have "findMostTransactionsMonth h this = Num (real m + 1)"
      using res Idx by simp
    moreover have "0 < bc (Idx m)" using pos Idx by simp
    moreover have "\<forall>k. bc k \<le> bc (Idx m)" using le Idx by simp
    moreover have "\<forall>m' < m. bc (Idx m') < bc (Idx m)" using lt Idx by simp
    ultimately show ?thesis using no by auto
  qed
  have valid: "\<exists>m. findMostTransactionsMonth h this = Num (real m + 1) \<and> 0 < bc (Idx m) \<and>
                 (\<forall>m'. bc (Idx m') \<le> bc (Idx m)) \<and> (\<forall>m' < m. bc (Idx m') < bc (Idx m))"
    if v: "\<forall>t \<in> set (transactions this). newDate h (transaction_date t) \<noteq> InvalidDate"
  proof -
    have z: "bc KeyNaN = 0"
      using bucketCount_KeyNaN [OF v] by (simp add: bc_def)
    then have "\<not> (\<forall>m. bc (Idx m) < bc KeyNaN)" by simp
    with general show ?thesis by auto
  qed
  from general valid show ?thesis
    unfolding bc_def by blast
qed

lemma bucketCount_sample:
  "bucketCount utcHost [tx_c, tx_a] k = (if k = Idx 1 then 1 else 0) + (if k = Idx 0 then 1 else 0)"
  by (simp add: bucketCount_def newDate_tx_a newDate_tx_c)

lemma bucketCount_sample_invalid:
  "bucketCount utcHost [tx_g, tx_a] k = (if k = KeyNaN then 1 else 0) + (if k = Idx 0 then 1 else 0)"
  by (simp add: bucketCount_def newDate_tx_a newDate_tx_g)

text \<open>
  Two ties on the sample. The February record comes first in the ledger, the January
  record second: the result is 1, January. The record of invalid date comes first, the
  January record second: the result is 1 again, the months being visited first.
\<close>

theorem findMostTransactionsMonth_lowest_maximal_month_witness:
  "transactions \<lparr>transactions = [tx_c, tx_a]\<rparr> \<noteq> [] \<and>
   newDate utcHost (transaction_date tx_c) = DateObj 1549152000000 2019 1 3 \<and>
   newDate utcHost (transaction_date tx_a) = DateObj 1547424000000 2019 0 14 \<and>
   bucketCount utcHost [tx_c, tx_a] (Idx 0) = 1 \<and>
   bucketCount utcHost [tx_c, tx_a] (Idx 1) = 1 \<and>
   findMostTransactionsMonth utcHost \<lparr>transactions = [tx_c, tx_a]\<rparr> = Num 1 \<and>
   transactions \<lparr>transactions = [tx_g, tx_a]\<rparr> \<noteq> [] \<and>
   newDate utcHost (transaction_date tx_g) = InvalidDate \<and>
   bucketCount utcHost [tx_g, tx_a] KeyNaN = 1 \<and>
   bucketCount utcHost [tx_g, tx_a] (Idx 0) = 1 \<and>
   findMostTransactionsMonth utcHost \<lparr>transactions = [tx_g, tx_a]\<rparr> = Num 1"
proof -
  have valid: "\<forall>t \<in> set (transactions \<lparr>transactions = [tx_c, tx_a]\<rparr>).
                 newDate utcHost (transaction_date t) \<noteq> InvalidDate"
    by (simp add: newDate_tx_a newDate_tx_c)
  from findMostTransactionsMonth_lowest_maximal_month
         [of "\<lparr>transactions = [tx_c, tx_a]\<rparr>" utcHost] valid
  obtain m where res: "findMostTransactionsMonth utcHost \<lparr>transactions = [tx_c, tx_a]\<rparr> = Num (real m + 1)"
    and low: "\<forall>m' < m. bucketCount utcHost [tx_c, tx_a] (Idx m') < bucketCount utcHost [tx_c, tx_a] (Idx m)"
    by auto
  have "m = 0"
  proof (rule ccontr)
    assume "m \<noteq> 0"
    then have "bucketCount utcHost [tx_c, tx_a] (Idx 0) < bucketCount utcHost [tx_c, tx_a] (Idx m)"
      using low by simp
    then show False
      by (simp add: bucketCount_sample split: if_splits)
  qed
  with res have first: "findMostTransactionsMonth utcHost \<lparr>transactions = [tx_c, tx_a]\<rparr> = Num 1"
    by simp
  have "\<not> (\<forall>m. bucketCount utcHost [tx_g, tx_a] (Idx m) < bucketCount utcHost [tx_g, tx_a] KeyNaN)"
    by (simp add: bucketCount_sample_invalid)
  with findMostTransactionsMonth_lowest_maximal_month
         [of "\<lparr>transactions = [tx_g, tx_a]\<rparr>" utcHost]
  obtain n where res2: "findMostTransactionsMonth utcHost \<lparr>transactions = [tx_g, tx_a]\<rparr> = Num (real n + 1)"
    and pos2: "0 < bucketCount utcHost [tx_g, tx_a] (Idx n)"
    by auto
  have "n = 0"
    using pos2 by (simp add: bucketCount_sample_invalid split: if_splits)
  with res2 have second: "findMostTransactionsMonth utcHost \<lparr>transactions = [tx_g, tx_a]\<rparr> = Num 1"
    by simp
  from first second show ?thesis
    by (simp add: bucketCount_sample bucketCount_sample_invalid newDate_tx_a newDate_tx_c
        newDate_tx_g)
qed

text \<open>
  C4 as stated fails on a ledger that is not empty: two records of invalid date
  followed by a January record. The bucket of the invalid dates holds two records, the
  January bucket one, and the result is NaN, not a month.
\<close>

theorem findMostTransactionsMonth_invalid_dates_counterexample:
  "transactions \<lparr>transactions = [tx_g, tx_g, tx_a]\<rparr> \<noteq> [] \<and>
   bucketCount utcHost [tx_g, tx_g, tx_a] (Idx 0) = 1 \<and>
   bucketCount utcHost [tx_g, tx_g, tx_a] KeyNaN = 2 \<and>
   findMostTransactionsMonth utcHost \<lparr>transactions = [tx_g, tx_g, tx_a]\<rparr> = NaN"
  by (simp add: findMostTransactionsMonth_def transactionCountByMonth_def countMonth_def
      obj_get_def selectMonth_def bucketCount_def newDate_tx_a newDate_tx_g)

lemma no_debit_no_counters:
  "\<forall>t \<in> set ts. transaction_type t \<noteq> String ''debit'' \<Longrightarrow>
   foldl (\<lambda>obj t. if transaction_type t = String ''debit'' then g t obj else obj) acc ts = acc"
  by (induction ts arbitrary: acc) simp_all

text \<open>
  C5. On the empty ledger the selection loop of \<open>findMostTransactionsMonth\<close> ends with
  the month still \<open>null\<close> and the result is NaN, not a month number; the same holds for
  \<open>findMostDebitTransactionMonth\<close> on every ledger without a debit record.
\<close>

theorem month_of_nothing_is_NaN:
  "selectMonth (transactionCountByMonth h \<lparr>transactions = []\<rparr>) = (None, 0) \<and>
   findMostTransactionsMonth h \<lparr>transactions = []\<rparr> = NaN \<and>
   ((\<forall>t \<in> set (transactions this). transaction_type t \<noteq> String ''debit'') \<longrightarrow>
      selectMonth (debitTransactionCountByMonth h this) = (None, 0) \<and>
      findMostDebitTransactionMonth h this = NaN)"
  by (simp add: selectMonth_def transactionCountByMonth_def findMostTransactionsMonth_def
      debitTransactionCountByMonth_def findMostDebitTransactionMonth_def no_debit_no_counters)

theorem month_of_nothing_is_NaN_witness:
  "transaction_type tx_b \<noteq> String ''debit'' \<and>
   selectMonth (debitTransactionCountByMonth utcHost \<lparr>transactions = [tx_b]\<rparr>) = (None, 0) \<and>
   findMostDebitTransactionMonth utcHost \<lparr>transactions = [tx_b]\<rparr> = NaN"
proof -
  have "\<forall>t \<in> set (transactions \<lparr>transactions = [tx_b]\<rparr>). transaction_type t \<noteq> String ''debit''"
    by (simp add: type_tx)
  with month_of_nothing_is_NaN [of utcHost "\<lparr>transactions = [tx_b]\<rparr>"]
  show ?thesis by (simp add: type_tx)
qed


end
